theory Spec2Isabelle
  imports Main "HOL-Library.Extended_Nat"
begin

section \<open>Data model of CSP.py\<close>

text \<open>
  Variables are Python strings; main.py also passes \<open>None\<close> as the partner of the
  dummy constraint it registers for a region without neighbours. Domain values are Python
  values; \<open>is_consistent\<close> hands the empty list \<open>[]\<close> to a predicate in place of the
  value of an unassigned partner, so the empty list is a value of its own here.
\<close>

datatype pyvar = NoneVar | StrVar string

datatype pyval = EmptyList | StrVal string | IntVal int

datatype error = KeyError | ValueError | IndexError

type_synonym predicate = "pyval \<Rightarrow> pyval \<Rightarrow> bool"

text \<open>
  A constraint is the tuple \<open>(constraint_func, variables)\<close> of the source, where
  \<open>variables\<close> is the two-element list \<open>[A, B]\<close>, read as \<open>variables[0]\<close> and
  \<open>variables[1]\<close>.
\<close>

type_synonym constraint = "predicate \<times> (pyvar \<times> pyvar)"

type_synonym removal_log = "(pyvar \<times> pyval) list"

text \<open>
  A domain is a Python list object. \<open>add_variable\<close> keeps the caller's object,
  \<open>remove_value\<close>, \<open>restore_value\<close> and \<open>arc_reduce\<close> change it in place, and
  two variables that were given the same object see each other's changes. So the dictionary
  \<open>variables\<close> maps a variable to the location of its list, and the store \<open>heap\<close>
  maps a location to the list's present content; \<open>next_loc\<close> is the first location
  not yet in use, where the next new list is put. The store is carried in the same record
  as the fields of the class.
\<close>

type_synonym loc = nat

record CSP =
  variables :: "pyvar \<rightharpoonup> loc"
  constraints :: "constraint list"
  unassigned_var :: "pyvar list"
  var_constraints :: "pyvar \<rightharpoonup> constraint list"
  assignments :: "pyvar \<rightharpoonup> pyval"
  assignments_number :: int
  heap :: "loc \<Rightarrow> pyval list"
  next_loc :: loc

text \<open>Python truthiness of a variable name and \<open>isinstance(x, str)\<close>.\<close>

fun truthy :: "pyvar \<Rightarrow> bool" where
  "truthy NoneVar = False"
| "truthy (StrVar s) = (s \<noteq> [])"

fun is_str :: "pyvar \<Rightarrow> bool" where
  "is_str NoneVar = False"
| "is_str (StrVar s) = True"

text \<open>The predicate \<open>lambda x, y: x != y\<close> of main.py, and equality as a second example.\<close>

definition py_ne :: predicate where
  "py_ne x y = (x \<noteq> y)"

definition py_eq :: predicate where
  "py_eq x y = (x = y)"

text \<open>A table constraint: the pair must not be (Red, Blue).\<close>

definition not_red_blue :: predicate where
  "not_red_blue x y = (\<not> (x = StrVal ''Red'' \<and> y = StrVal ''Blue''))"

definition init_CSP :: CSP where
  "init_CSP = \<lparr> variables = Map.empty, constraints = [], unassigned_var = [],
                var_constraints = Map.empty, assignments = Map.empty,
                assignments_number = 0, heap = (\<lambda>l. []), next_loc = 0 \<rparr>"

text \<open>A new list object, as a list display \<open>[v1, ..., vn]\<close> creates one.\<close>

definition new_list :: "pyval list \<Rightarrow> CSP \<Rightarrow> loc \<times> CSP" where
  "new_list xs csp =
     (next_loc csp,
      csp\<lparr> heap := (heap csp)(next_loc csp := xs), next_loc := Suc (next_loc csp) \<rparr>)"

text \<open>The list a variable refers to at present; None when the variable is not a key.\<close>

definition domain_of :: "CSP \<Rightarrow> pyvar \<Rightarrow> pyval list option" where
  "domain_of csp v = map_option (heap csp) (variables csp v)"

section \<open>Operations of CSP.py\<close>

text \<open>
  \<open>add_constraint\<close>: the loop over the constraints already keyed on \<open>variables[0]\<close>
  binds the name \<open>constraint_func\<close> again at every iteration, so after the loop that
  name holds the predicate of the last constraint visited (the parameter when the list is
  empty). The fold carries that name together with the flag \<open>exists\<close>.
\<close>

definition add_constraint_scan :: "predicate \<Rightarrow> pyvar \<Rightarrow> constraint list \<Rightarrow> predicate \<times> bool" where
  "add_constraint_scan constraint_func partner existing =
     foldl (\<lambda>(cf, found) (g, tuples). (g, found \<or> partner = snd tuples))
           (constraint_func, False) existing"

definition add_constraint :: "predicate \<Rightarrow> pyvar \<times> pyvar \<Rightarrow> CSP \<Rightarrow> CSP" where
  "add_constraint constraint_func vars csp =
     (let variable = fst vars;
          vc = (if var_constraints csp variable = None
                then (var_constraints csp)(variable \<mapsto> [])
                else var_constraints csp);
          existing = (case vc variable of Some cs \<Rightarrow> cs | None \<Rightarrow> []);
          scanned = add_constraint_scan constraint_func (snd vars) existing
      in if \<not> snd scanned
         then csp\<lparr> constraints := constraints csp @ [(fst scanned, vars)],
                   var_constraints := vc(variable \<mapsto> existing @ [(fst scanned, vars)]) \<rparr>
         else csp\<lparr> var_constraints := vc \<rparr>)"

text \<open>\<open>add_variable\<close> stores the reference to the caller's list.\<close>

definition add_variable :: "pyvar \<Rightarrow> loc \<Rightarrow> CSP \<Rightarrow> CSP" where
  "add_variable variable domain csp =
     csp\<lparr> variables := (variables csp)(variable \<mapsto> domain),
          unassigned_var := unassigned_var csp @ [variable] \<rparr>"

text \<open>
  The call \<open>csp.add_variable(v, [v1, ..., vn])\<close> of main.py: the argument is a list
  display, so the variable gets a list object of its own.
\<close>

definition add_variable_literal :: "pyvar \<Rightarrow> pyval list \<Rightarrow> CSP \<Rightarrow> CSP" where
  "add_variable_literal variable xs csp =
     (case new_list xs csp of (l, csp1) \<Rightarrow> add_variable variable l csp1)"

text \<open>
  \<open>is_consistent\<close>: the partner's value is its assignment, or \<open>[]\<close> when it has none.
  The loop returns False at the first predicate that fails; predicates are pure, so this
  is \<open>list_all\<close>.
\<close>

definition related_values :: "CSP \<Rightarrow> pyvar \<Rightarrow> pyval" where
  "related_values csp partner =
     (case assignments csp partner of Some w \<Rightarrow> w | None \<Rightarrow> EmptyList)"

definition is_consistent :: "pyvar \<Rightarrow> pyval \<Rightarrow> CSP \<Rightarrow> bool" where
  "is_consistent variable val csp =
     (case var_constraints csp variable of
        None \<Rightarrow> True
      | Some cs \<Rightarrow> list_all (\<lambda>(constraint_func, related_vars).
                     constraint_func val (related_values csp (snd related_vars))) cs)"

text \<open>
  \<open>assign\<close> writes the mapping first; \<open>list.remove\<close> raises ValueError when the
  variable is not in the pending list, and the write stays. The bool is computed last, on
  the model as it is after the write.
\<close>

definition assign :: "pyvar \<Rightarrow> pyval \<Rightarrow> CSP \<Rightarrow> (error + bool) \<times> CSP" where
  "assign variable val csp =
     (let csp1 = csp\<lparr> assignments := (assignments csp)(variable \<mapsto> val) \<rparr>
      in if variable \<notin> set (unassigned_var csp1) then (Inl ValueError, csp1)
         else let csp2 = csp1\<lparr> unassigned_var := remove1 variable (unassigned_var csp1),
                               assignments_number := assignments_number csp1 + 1 \<rparr>
              in (Inr (is_consistent variable val csp2), csp2))"

definition is_complete :: "CSP \<Rightarrow> bool" where
  "is_complete csp = (length (unassigned_var csp) = 0)"

definition is_assigned :: "pyvar \<Rightarrow> CSP \<Rightarrow> bool" where
  "is_assigned variable csp = (variable \<notin> set (unassigned_var csp))"

text \<open>
  \<open>restore_value\<close> appends each logged value to the list the variable refers to now;
  an unknown variable is a KeyError.
\<close>

fun restore_value :: "removal_log \<Rightarrow> CSP \<Rightarrow> (error + unit) \<times> CSP" where
  "restore_value [] csp = (Inr (), csp)"
| "restore_value ((variable, val) # removed) csp =
     (case variables csp variable of
        None \<Rightarrow> (Inl KeyError, csp)
      | Some l \<Rightarrow> restore_value removed
                    (csp\<lparr> heap := (heap csp)(l := heap csp l @ [val]) \<rparr>))"

definition unassign :: "removal_log \<Rightarrow> pyvar \<Rightarrow> CSP \<Rightarrow> (error + unit) \<times> CSP" where
  "unassign removed_values_from_domain variable csp =
     (if assignments csp variable \<noteq> None
      then restore_value removed_values_from_domain
             (csp\<lparr> assignments := (assignments csp)(variable := None),
                   unassigned_var := unassigned_var csp @ [variable] \<rparr>)
      else (Inr (), csp))"

text \<open>
  \<open>remove_value\<close>: three dictionary reads can raise KeyError: the domain of the
  variable, the constraints keyed on it (read without the membership test that
  \<open>is_consistent\<close> makes), and the domain of a truthy partner. The assignment
  \<open>self.variables[variable] = [value]\<close> binds the variable to a new list object; the
  old object is left as it was. \<open>list.remove\<close> on a partner's list deletes the first
  occurrence, in place.
\<close>

fun remove_value_neighbors ::
  "pyval \<Rightarrow> constraint list \<Rightarrow> removal_log \<Rightarrow> CSP \<Rightarrow> (error + removal_log) \<times> CSP" where
  "remove_value_neighbors val [] removed csp = (Inr removed, csp)"
| "remove_value_neighbors val ((constraint_func, related_vars) # cs) removed csp =
     (let neighbor = snd related_vars
      in if truthy neighbor
         then (case variables csp neighbor of
                 None \<Rightarrow> (Inl KeyError, csp)
               | Some l \<Rightarrow>
                   if val \<in> set (heap csp l)
                   then remove_value_neighbors val cs (removed @ [(neighbor, val)])
                          (csp\<lparr> heap := (heap csp)(l := remove1 val (heap csp l)) \<rparr>)
                   else remove_value_neighbors val cs removed csp)
         else remove_value_neighbors val cs removed csp)"

definition remove_value :: "pyvar \<Rightarrow> pyval \<Rightarrow> CSP \<Rightarrow> (error + removal_log) \<times> CSP" where
  "remove_value variable val csp =
     (case variables csp variable of
        None \<Rightarrow> (Inl KeyError, csp)
      | Some l \<Rightarrow>
          (let removed = map (Pair variable) (filter (\<lambda>v. v \<noteq> val) (heap csp l));
               csp1 = csp\<lparr> variables := (variables csp)(variable \<mapsto> next_loc csp),
                           heap := (heap csp)(next_loc csp := [val]),
                           next_loc := Suc (next_loc csp) \<rparr>
           in case var_constraints csp1 variable of
                None \<Rightarrow> (Inl KeyError, csp1)
              | Some cs \<Rightarrow> remove_value_neighbors val cs removed csp1))"

section \<open>Sequences of the public mutators\<close>

datatype operation =
    AddVariable pyvar loc
  | Assign pyvar pyval
  | Unassign removal_log pyvar

text \<open>A raised exception leaves the model as mutated so far; the caller goes on from there.\<close>

fun run_operation :: "operation \<Rightarrow> CSP \<Rightarrow> CSP" where
  "run_operation (AddVariable variable domain) csp = add_variable variable domain csp"
| "run_operation (Assign variable val) csp = snd (assign variable val csp)"
| "run_operation (Unassign removed variable) csp = snd (unassign removed variable csp)"

fun run_operations :: "operation list \<Rightarrow> CSP \<Rightarrow> CSP" where
  "run_operations [] csp = csp"
| "run_operations (op # ops) csp = run_operations ops (run_operation op csp)"

text \<open>
  The invariant of the data model: a registered variable is pending exactly once and has
  no assignment, or is not pending and has one.
\<close>

definition assignment_invariant :: "CSP \<Rightarrow> bool" where
  "assignment_invariant csp =
     (\<forall>v. variables csp v \<noteq> None \<longrightarrow>
        (count_list (unassigned_var csp) v = 1 \<and> assignments csp v = None) \<or>
        (v \<notin> set (unassigned_var csp) \<and> assignments csp v \<noteq> None))"

text \<open>\<open>add_variable\<close> is called for a name the model has not seen in any of its tables.\<close>

fun fresh_additions :: "operation list \<Rightarrow> CSP \<Rightarrow> bool" where
  "fresh_additions [] csp = True"
| "fresh_additions (op # ops) csp =
     ((case op of
         AddVariable variable domain \<Rightarrow>
           variables csp variable = None \<and> variable \<notin> set (unassigned_var csp) \<and>
           assignments csp variable = None
       | _ \<Rightarrow> True) \<and>
      fresh_additions ops (run_operation op csp))"

section \<open>Solver.py\<close>

text \<open>
  The solver object holds the three flags and a reference to the model; the model is
  passed and returned explicitly here.
\<close>

record Solver =
  domain_heuristic :: bool
  variable_heuristic :: bool
  AC_3 :: bool

text \<open>
  \<open>arc_reduce\<close> iterates over the list of \<open>x\<close> while \<open>list.remove\<close> shortens that
  same list. A Python list iterator keeps an index: each step reads position \<open>i\<close> of the
  list as it is now, if there is one, and moves to \<open>i + 1\<close>. \<open>list.remove\<close> deletes the
  first occurrence. The list of \<open>y\<close> is read anew for every value of \<open>x\<close>; it is the
  same object when the two variables share their list.
\<close>

function arc_reduce_loop ::
  "loc \<Rightarrow> pyvar \<Rightarrow> predicate \<Rightarrow> nat \<Rightarrow> pyval list \<Rightarrow> CSP \<Rightarrow> (error + pyval list) \<times> CSP" where
  "arc_reduce_loop lx y consistent i removed_values csp =
     (if i < length (heap csp lx)
      then (case variables csp y of
              None \<Rightarrow> (Inl KeyError, csp)
            | Some ly \<Rightarrow>
                if list_all (\<lambda>y_value. \<not> consistent (heap csp lx ! i) y_value) (heap csp ly)
                then if length (remove1 (heap csp lx ! i) (heap csp lx)) = 0
                     then (Inr (removed_values @ [heap csp lx ! i]),
                           csp\<lparr> heap := (heap csp)(lx := remove1 (heap csp lx ! i) (heap csp lx)) \<rparr>)
                     else arc_reduce_loop lx y consistent (Suc i)
                            (removed_values @ [heap csp lx ! i])
                            (csp\<lparr> heap := (heap csp)(lx := remove1 (heap csp lx ! i) (heap csp lx)) \<rparr>)
                else arc_reduce_loop lx y consistent (Suc i) removed_values csp)
      else (Inr removed_values, csp))"
  by pat_completeness auto
termination
proof (relation "measure (\<lambda>(lx, y, consistent, i, removed_values, csp).
                   length (heap csp lx) - i)")
  show "wf (measure (\<lambda>(lx, y, consistent, i, removed_values, csp).
                   length (heap csp lx) - i))"
    by simp
next
  fix lx :: loc and y :: pyvar and consistent :: predicate and i :: nat
    and removed_values :: "pyval list" and csp :: CSP and ly :: loc
  assume i: "i < length (heap csp lx)"
  have "heap csp lx ! i \<in> set (heap csp lx)" using i by simp
  then have "length (remove1 (heap csp lx ! i) (heap csp lx)) = length (heap csp lx) - 1"
    by (simp add: length_remove1)
  then show "((lx, y, consistent, Suc i, removed_values @ [heap csp lx ! i],
               csp\<lparr> heap := (heap csp)(lx := remove1 (heap csp lx ! i) (heap csp lx)) \<rparr>),
              (lx, y, consistent, i, removed_values, csp))
             \<in> measure (\<lambda>(lx, y, consistent, i, removed_values, csp).
                   length (heap csp lx) - i)"
    using i by simp
next
  fix lx :: loc and y :: pyvar and consistent :: predicate and i :: nat
    and removed_values :: "pyval list" and csp :: CSP and ly :: loc
  assume i: "i < length (heap csp lx)"
  then show "((lx, y, consistent, Suc i, removed_values, csp),
              (lx, y, consistent, i, removed_values, csp))
             \<in> measure (\<lambda>(lx, y, consistent, i, removed_values, csp).
                   length (heap csp lx) - i)"
    by simp
qed

declare arc_reduce_loop.simps [simp del]

definition arc_reduce :: "pyvar \<Rightarrow> pyvar \<Rightarrow> predicate \<Rightarrow> CSP \<Rightarrow> (error + pyval list) \<times> CSP" where
  "arc_reduce x y consistent csp =
     (case variables csp x of
        None \<Rightarrow> (Inl KeyError, csp)
      | Some lx \<Rightarrow> arc_reduce_loop lx y consistent 0 [] csp)"

text \<open>
  \<open>apply_AC3\<close>: the deque starts as a copy of the constraint list; the loop pops its
  head and never appends to it.
\<close>

fun apply_AC3_loop ::
  "constraint list \<Rightarrow> removal_log \<Rightarrow> CSP \<Rightarrow> (error + removal_log) \<times> CSP" where
  "apply_AC3_loop [] removed_values csp = (Inr removed_values, csp)"
| "apply_AC3_loop ((constraint, vars) # queue) removed_values csp =
     (if \<not> is_str (fst vars) \<or> \<not> is_str (snd vars)
      then apply_AC3_loop queue removed_values csp
      else (case arc_reduce (fst vars) (snd vars) constraint csp of
              (Inl e, csp') \<Rightarrow> (Inl e, csp')
            | (Inr removed, csp') \<Rightarrow>
                (case variables csp' (fst vars) of
                   None \<Rightarrow> (Inl KeyError, csp')
                 | Some l \<Rightarrow>
                     if length (heap csp' l) = 0
                     then (Inr (removed_values @ map (Pair (fst vars)) removed), csp')
                     else apply_AC3_loop queue
                            (removed_values @ map (Pair (fst vars)) removed) csp')))"

definition apply_AC3 :: "CSP \<Rightarrow> (error + removal_log) \<times> CSP" where
  "apply_AC3 csp = apply_AC3_loop (constraints csp) [] csp"

text \<open>\<open>MRV\<close>: \<open>min_size\<close> starts at infinity and \<open>minVariable\<close> at None.\<close>

fun MRV_loop :: "CSP \<Rightarrow> pyvar list \<Rightarrow> enat \<Rightarrow> pyvar \<Rightarrow> error + pyvar" where
  "MRV_loop csp [] min_size minVariable = Inr minVariable"
| "MRV_loop csp (v # vs) min_size minVariable =
     (case variables csp v of
        None \<Rightarrow> Inl KeyError
      | Some l \<Rightarrow>
          if enat (length (heap csp l)) < min_size
          then MRV_loop csp vs (enat (length (heap csp l))) v
          else MRV_loop csp vs min_size minVariable)"

definition MRV :: "CSP \<Rightarrow> error + pyvar" where
  "MRV csp = MRV_loop csp (unassigned_var csp) \<infinity> NoneVar"

definition select_unassigned_variable :: "Solver \<Rightarrow> CSP \<Rightarrow> error + pyvar" where
  "select_unassigned_variable solver csp =
     (if variable_heuristic solver then MRV csp
      else (case unassigned_var csp of [] \<Rightarrow> Inl IndexError | v # vs \<Rightarrow> Inr v))"

text \<open>
  \<open>LCV\<close>: \<open>sorted\<close> computes the key of every element, in order, and then sorts
  stably by key into a new list.
\<close>

fun count_constraints_loop :: "CSP \<Rightarrow> pyval \<Rightarrow> constraint list \<Rightarrow> nat \<Rightarrow> error + nat" where
  "count_constraints_loop csp val [] n = Inr n"
| "count_constraints_loop csp val ((constraint_func, related_vars) # cs) n =
     (if truthy (snd related_vars) \<and> \<not> is_assigned (snd related_vars) csp
      then (case variables csp (snd related_vars) of
              None \<Rightarrow> Inl KeyError
            | Some l \<Rightarrow>
                if val \<in> set (heap csp l)
                then count_constraints_loop csp val cs (n + 1)
                else count_constraints_loop csp val cs n)
      else count_constraints_loop csp val cs n)"

definition count_constraints :: "CSP \<Rightarrow> pyvar \<Rightarrow> pyval \<Rightarrow> error + nat" where
  "count_constraints csp variable val =
     (case var_constraints csp variable of
        None \<Rightarrow> Inr 0
      | Some cs \<Rightarrow> count_constraints_loop csp val cs 0)"

fun LCV_keys :: "CSP \<Rightarrow> pyvar \<Rightarrow> pyval list \<Rightarrow> error + nat list" where
  "LCV_keys csp variable [] = Inr []"
| "LCV_keys csp variable (val # vals) =
     (case count_constraints csp variable val of
        Inl e \<Rightarrow> Inl e
      | Inr k \<Rightarrow> (case LCV_keys csp variable vals of
                    Inl e \<Rightarrow> Inl e
                  | Inr ks \<Rightarrow> Inr (k # ks)))"

definition LCV :: "CSP \<Rightarrow> pyvar \<Rightarrow> error + pyval list" where
  "LCV csp variable =
     (case variables csp variable of
        None \<Rightarrow> Inl KeyError
      | Some l \<Rightarrow> (case LCV_keys csp variable (heap csp l) of
                    Inl e \<Rightarrow> Inl e
                  | Inr ks \<Rightarrow> Inr (map snd (sort_key fst (zip ks (heap csp l))))))"

text \<open>
  What the \<open>for\<close> loop of \<open>backtrack_solver\<close> runs over: without LCV the list object
  of the variable itself, with LCV the new list \<open>sorted\<close> made, which nothing else refers
  to.
\<close>

datatype iterable = ListObject loc | SortedCopy "pyval list"

fun iterable_list :: "iterable \<Rightarrow> CSP \<Rightarrow> pyval list" where
  "iterable_list (ListObject l) csp = heap csp l"
| "iterable_list (SortedCopy xs) csp = xs"

definition ordered_domain_value :: "Solver \<Rightarrow> pyvar \<Rightarrow> CSP \<Rightarrow> error + iterable" where
  "ordered_domain_value solver variable csp =
     (if domain_heuristic solver
      then (case LCV csp variable of Inl e \<Rightarrow> Inl e | Inr xs \<Rightarrow> Inr (SortedCopy xs))
      else (case variables csp variable of
              None \<Rightarrow> Inl KeyError
            | Some l \<Rightarrow> Inr (ListObject l)))"

text \<open>
  \<open>backtrack_solver\<close>. A fuel argument bounds the depth of the recursion and the number
  of steps of each \<open>for\<close> loop: \<open>None\<close> is "fuel exhausted", \<open>Some (Inl e, csp)\<close> an
  exception, \<open>Some (Inr None, csp)\<close> the return value None and
  \<open>Some (Inr (Some a), csp)\<close> the returned assignment (the mapping whose items the source
  lists).

  \<open>try_branch\<close> is the body under the two \<open>if\<close>s: assign, remove_value, the recursive
  call, and on failure unassign. \<open>try_values\<close> is the \<open>for\<close> loop: a list iterator
  with index \<open>i\<close>, which reads the list as it is at each step.
\<close>

type_synonym solution = "pyvar \<rightharpoonup> pyval"

type_synonym search_result = "((error + solution option) \<times> CSP) option"

definition try_branch ::
  "(CSP \<Rightarrow> search_result) \<Rightarrow> pyvar \<Rightarrow> pyval \<Rightarrow> removal_log \<Rightarrow> CSP \<Rightarrow> search_result" where
  "try_branch recurse variable val removed csp =
     (case assign variable val csp of
        (Inl e, csp1) \<Rightarrow> Some (Inl e, csp1)
      | (Inr b, csp1) \<Rightarrow>
          (case remove_value variable val csp1 of
             (Inl e, csp2) \<Rightarrow> Some (Inl e, csp2)
           | (Inr logged, csp2) \<Rightarrow>
               (case recurse csp2 of
                  None \<Rightarrow> None
                | Some (Inl e, csp3) \<Rightarrow> Some (Inl e, csp3)
                | Some (Inr (Some result), csp3) \<Rightarrow> Some (Inr (Some result), csp3)
                | Some (Inr None, csp3) \<Rightarrow>
                    (case unassign (removed @ logged) variable csp3 of
                       (Inl e, csp4) \<Rightarrow> Some (Inl e, csp4)
                     | (Inr u, csp4) \<Rightarrow> Some (Inr None, csp4)))))"

primrec try_values ::
  "nat \<Rightarrow> (CSP \<Rightarrow> search_result) \<Rightarrow> pyvar \<Rightarrow> iterable \<Rightarrow> nat \<Rightarrow> removal_log \<Rightarrow> CSP \<Rightarrow> search_result" where
  "try_values 0 recurse variable it i removed csp = None"
| "try_values (Suc steps) recurse variable it i removed csp =
     (if i < length (iterable_list it csp)
      then if is_consistent variable (iterable_list it csp ! i) csp \<and> \<not> is_assigned variable csp
           then (case try_branch recurse variable (iterable_list it csp ! i) removed csp of
                   Some (Inr None, csp') \<Rightarrow> try_values steps recurse variable it (Suc i) [] csp'
                 | other \<Rightarrow> other)
           else try_values steps recurse variable it (Suc i) removed csp
      else Some (Inr None, csp))"

primrec backtrack_solver :: "nat \<Rightarrow> Solver \<Rightarrow> CSP \<Rightarrow> search_result" where
  "backtrack_solver 0 solver csp = None"
| "backtrack_solver (Suc fuel) solver csp =
     (case (if AC_3 solver then apply_AC3 csp else (Inr [], csp)) of
        (Inl e, csp1) \<Rightarrow> Some (Inl e, csp1)
      | (Inr removed, csp1) \<Rightarrow>
          if is_complete csp1 then Some (Inr (Some (assignments csp1)), csp1)
          else (case select_unassigned_variable solver csp1 of
                  Inl e \<Rightarrow> Some (Inl e, csp1)
                | Inr variable \<Rightarrow>
                    (case ordered_domain_value solver variable csp1 of
                       Inl e \<Rightarrow> Some (Inl e, csp1)
                     | Inr it \<Rightarrow>
                         try_values (Suc fuel) (backtrack_solver fuel solver) variable it 0
                           removed csp1)))"

section \<open>Auxiliary notions and example models\<close>

text \<open>\<open>len(self.csp.variables[var])\<close>, for a registered variable.\<close>

definition domain_size :: "CSP \<Rightarrow> pyvar \<Rightarrow> nat" where
  "domain_size csp v = (case variables csp v of Some l \<Rightarrow> length (heap csp l) | None \<Rightarrow> 0)"

text \<open>
  An arc that \<open>apply_AC3\<close> does not skip and whose first variable has the empty
  domain in the given model.
\<close>

definition arc_emptied :: "constraint \<Rightarrow> CSP \<Rightarrow> bool" where
  "arc_emptied c csp =
     (is_str (fst (snd c)) \<and> is_str (snd (snd c)) \<and> domain_of csp (fst (snd c)) = Some [])"

text \<open>
  The single pass as the specification words it. \<open>reduce_arc\<close> is what is done for one
  arc \<open>(X, Y, predicate)\<close>: one call of \<open>arc_reduce\<close>, whose removals are recorded as
  pairs \<open>(X, value)\<close> at the end of the removal list; an arc with an end that is not a
  string is passed over, and an exception is kept. \<open>single_pass\<close> does this once for
  each arc of a list, in the order of the list, and for nothing else.
\<close>

definition reduce_arc ::
  "(error + removal_log) \<times> CSP \<Rightarrow> constraint \<Rightarrow> (error + removal_log) \<times> CSP" where
  "reduce_arc state arc =
     (case state of
        (Inl e, csp) \<Rightarrow> (Inl e, csp)
      | (Inr removed_values, csp) \<Rightarrow>
          if \<not> is_str (fst (snd arc)) \<or> \<not> is_str (snd (snd arc))
          then (Inr removed_values, csp)
          else (case arc_reduce (fst (snd arc)) (snd (snd arc)) (fst arc) csp of
                  (Inl e, csp') \<Rightarrow> (Inl e, csp')
                | (Inr removed, csp') \<Rightarrow>
                    (Inr (removed_values @ map (Pair (fst (snd arc))) removed), csp')))"

definition single_pass :: "constraint list \<Rightarrow> CSP \<Rightarrow> (error + removal_log) \<times> CSP" where
  "single_pass arcs csp = foldl reduce_arc (Inr [], csp) arcs"

abbreviation var_A :: pyvar where "var_A \<equiv> StrVar ''A''"
abbreviation var_B :: pyvar where "var_B \<equiv> StrVar ''B''"
abbreviation var_C :: pyvar where "var_C \<equiv> StrVar ''C''"
abbreviation var_D :: pyvar where "var_D \<equiv> StrVar ''D''"
abbreviation Red :: pyval where "Red \<equiv> StrVal ''Red''"
abbreviation Blue :: pyval where "Blue \<equiv> StrVal ''Blue''"
abbreviation Green :: pyval where "Green \<equiv> StrVal ''Green''"

text \<open>
  In the example models every variable is added with a list display of its own, as in
  main.py, unless said otherwise.
\<close>

text \<open>Two variables, A with two colours and B with one, and the constraint A = B.\<close>

definition equal_pair_model :: CSP where
  "equal_pair_model =
     add_constraint py_eq (var_A, var_B)
       (add_variable_literal var_B [Green] (add_variable_literal var_A [Red, Blue] init_CSP))"

text \<open>One variable and no constraint.\<close>

definition lone_variable_model :: CSP where
  "lone_variable_model = add_variable_literal var_A [Red, Blue] init_CSP"

text \<open>A was assigned Red.\<close>

definition assigned_model :: CSP where
  "assigned_model = snd (assign var_A Red lone_variable_model)"




definition plain_solver :: Solver where
  "plain_solver = \<lparr> domain_heuristic = False, variable_heuristic = False, AC_3 = False \<rparr>"

definition AC3_solver :: Solver where
  "AC3_solver = \<lparr> domain_heuristic = False, variable_heuristic = False, AC_3 = True \<rparr>"

text \<open>
  An empty model beside two lists, \<open>[Red, Blue]\<close> at location 0 and \<open>[Red]\<close> at
  location 1, that the caller has made and not yet handed over.
\<close>

definition two_lists_model :: CSP where
  "two_lists_model = snd (new_list [Red] (snd (new_list [Red, Blue] init_CSP)))"

text \<open>Add A and B, assign A, fail to assign it again, unassign it.\<close>

definition example_operations :: "operation list" where
  "example_operations =
     [AddVariable var_A 0, AddVariable var_B 1, Assign var_A Red,
      Assign var_A Blue, Unassign [(var_B, Blue)] var_A]"

text \<open>The same variable added twice.\<close>

definition duplicate_additions :: "operation list" where
  "duplicate_additions = [AddVariable var_A 1, AddVariable var_A 1]"

text \<open>
  A chain A - B - C with inequality arcs in both directions; A can only be Red, C only
  Blue, B either.
\<close>

definition chain_model :: CSP where
  "chain_model =
     add_constraint py_ne (var_C, var_B)
       (add_constraint py_ne (var_B, var_C)
         (add_constraint py_ne (var_B, var_A)
           (add_constraint py_ne (var_A, var_B)
             (add_variable_literal var_C [Blue]
               (add_variable_literal var_B [Red, Blue]
                 (add_variable_literal var_A [Red] init_CSP))))))"

text \<open>
  A and B with the table constraint on (A, B) only, and for B the dummy constraint with
  partner None that main.py gives a region without neighbours.
\<close>

definition directed_model :: CSP where
  "directed_model =
     add_constraint py_ne (var_B, NoneVar)
       (add_constraint not_red_blue (var_A, var_B)
         (add_variable_literal var_B [Blue] (add_variable_literal var_A [Red] init_CSP)))"

text \<open>
  Three regions that border each other, with the inequality of main.py registered in both
  directions of every border. B and C can be Red or Blue, A can be Red or Green.
\<close>

definition triangle_model :: CSP where
  "triangle_model =
     add_constraint py_ne (var_C, var_B)
       (add_constraint py_ne (var_C, var_A)
         (add_constraint py_ne (var_B, var_C)
           (add_constraint py_ne (var_B, var_A)
             (add_constraint py_ne (var_A, var_C)
               (add_constraint py_ne (var_A, var_B)
                 (add_variable_literal var_C [Red, Blue]
                   (add_variable_literal var_B [Red, Blue]
                     (add_variable_literal var_A [Red, Green] init_CSP))))))))"

text \<open>
  The triangle with a fourth region D that borders B only and can only be Red. The map
  has the colouring A = Green, B = Blue, C = Red, D = Red.
\<close>

definition kite_model :: CSP where
  "kite_model =
     add_constraint py_ne (var_D, var_B)
       (add_constraint py_ne (var_B, var_D)
         (add_variable_literal var_D [Red] triangle_model))"

definition kite_colouring :: "pyvar \<rightharpoonup> pyval" where
  "kite_colouring =
     [var_A \<mapsto> Green, var_B \<mapsto> Blue, var_C \<mapsto> Red, var_D \<mapsto> Red]"

text \<open>
  One list \<open>[Red, Blue]\<close> that the caller passes to \<open>add_variable\<close> for A, for B and
  for C, three regions that border each other.
\<close>

definition shared_list_model :: CSP where
  "shared_list_model =
     add_constraint py_ne (var_C, var_B)
       (add_constraint py_ne (var_C, var_A)
         (add_constraint py_ne (var_B, var_C)
           (add_constraint py_ne (var_B, var_A)
             (add_constraint py_ne (var_A, var_C)
               (add_constraint py_ne (var_A, var_B)
                 (add_variable var_C 0
                   (add_variable var_B 0
                     (add_variable var_A 0 (snd (new_list [Red, Blue] init_CSP))))))))))"

text \<open>An assignment gives both ends of every registered arc values that its predicate accepts.\<close>

definition satisfies :: "(pyvar \<rightharpoonup> pyval) \<Rightarrow> constraint list \<Rightarrow> bool" where
  "satisfies a cs =
     list_all (\<lambda>(f, vars). case (a (fst vars), a (snd vars)) of
                                (Some u, Some w) \<Rightarrow> f u w
                              | _ \<Rightarrow> False) cs"

section \<open>Evaluation rules for concrete models\<close>

lemmas model_eval =
  add_constraint_def add_constraint_scan_def add_variable_def add_variable_literal_def
  new_list_def init_CSP_def Let_def domain_of_def
  is_consistent_def related_values_def py_eq_def py_ne_def not_red_blue_def
  assign_def unassign_def remove_value_def is_complete_def is_assigned_def
  arc_reduce_def apply_AC3_def MRV_def select_unassigned_variable_def
  ordered_domain_value_def domain_size_def

section \<open>assign on an assigned variable\<close>

text \<open>
  C10. When \<open>assign\<close> is called for a variable that is not in the pending list, it
  raises ValueError, and the model it leaves behind already has the new value written
  into the assignment mapping (nothing else is changed).
\<close>

theorem assign_already_assigned_not_atomic:
  assumes "variable \<notin> set (unassigned_var csp)"
  shows "assign variable val csp =
           (Inl ValueError, csp\<lparr> assignments := (assignments csp)(variable \<mapsto> val) \<rparr>)"
  using assms by (simp add: assign_def Let_def)

theorem assign_already_assigned_not_atomic_witness:
  "var_A \<notin> set (unassigned_var assigned_model) \<and>
   assignments assigned_model var_A = Some Red \<and>
   fst (assign var_A Blue assigned_model) = Inl ValueError \<and>
   assignments (snd (assign var_A Blue assigned_model)) var_A = Some Blue"
proof -
  have pending: "var_A \<notin> set (unassigned_var assigned_model)"
    by (simp add: assigned_model_def lone_variable_model_def model_eval)
  have before: "assignments assigned_model var_A = Some Red"
    by (simp add: assigned_model_def lone_variable_model_def model_eval)
  show ?thesis
    using pending before assign_already_assigned_not_atomic [OF pending, of Blue]
    by simp
qed

section \<open>is_consistent and unassigned partners\<close>






section \<open>add_constraint\<close>

text \<open>
  C6 at a failing input. After \<open>add_constraint(!=, [A, B])\<close>, the call
  \<open>add_constraint(==, [A, C])\<close> finds no constraint for the pair (A, C), yet what it
  stores for (A, C) is the inequality of the constraint visited last by the loop, not the
  equality it was given: the stored predicate rejects (Red, Red), which equality accepts.
\<close>

theorem add_constraint_registers_last_visited_predicate:
  "(case var_constraints
           (add_constraint py_eq (var_A, var_C) (add_constraint py_ne (var_A, var_B) init_CSP))
           var_A of
      None \<Rightarrow> False
    | Some cs \<Rightarrow> map snd cs = [(var_A, var_B), (var_A, var_C)] \<and> \<not> fst (last cs) Red Red) \<and>
   py_eq Red Red"
  by (simp add: model_eval)

text \<open>The first-writer-wins half of C6 holds: a second constraint for a pair changes nothing.\<close>

lemma add_constraint_scan_found:
  "snd (foldl (\<lambda>(cf, found) (g, tuples). (g, found \<or> partner = snd tuples)) (f, b) cs)
     = (b \<or> partner \<in> snd ` snd ` set cs)"
  by (induction cs arbitrary: f b) (auto simp: case_prod_beta)

lemma add_constraint_existing_pair:
  assumes "var_constraints csp (fst vars) = Some cs" and "snd vars \<in> snd ` snd ` set cs"
  shows "add_constraint constraint_func vars csp = csp"
  using assms
  by (simp add: add_constraint_def add_constraint_scan_def Let_def add_constraint_scan_found)

section \<open>remove_value\<close>

text \<open>
  C7 at a failing input. A is registered and has no constraint keyed on it;
  \<open>remove_value\<close> raises KeyError when it reads \<open>var_constraints[A]\<close>.
\<close>

theorem remove_value_unconstrained_variable_raises:
  "domain_of lone_variable_model var_A = Some [Red, Blue] \<and>
   var_constraints lone_variable_model var_A = None \<and>
   fst (remove_value var_A Red lone_variable_model) = Inl KeyError"
  by (simp add: lone_variable_model_def model_eval)

section \<open>arc_reduce\<close>

text \<open>
  C3 at a failing input. A has the domain [Red, Blue], B the domain [Green], and the arc
  is A = B. Neither colour of A has a support in B. \<open>arc_reduce\<close> removes Red; the list
  is now [Blue], the iterator stands at index 1, and the loop ends with Blue still in
  the domain.
\<close>

theorem arc_reduce_skips_value_after_removal:
  "fst (arc_reduce var_A var_B py_eq equal_pair_model) = Inr [Red] \<and>
   domain_of (snd (arc_reduce var_A var_B py_eq equal_pair_model)) var_A = Some [Blue] \<and>
   domain_of (snd (arc_reduce var_A var_B py_eq equal_pair_model)) var_B = Some [Green] \<and>
   \<not> py_eq Blue Green"
  by (simp add: equal_pair_model_def model_eval arc_reduce_loop.simps)

section \<open>MRV\<close>





section \<open>The assignment invariant\<close>

lemma restore_value_unchanged_fields:
  "\<exists>h. snd (restore_value removed csp) = csp\<lparr> heap := h \<rparr>"
proof (induction removed arbitrary: csp)
  case Nil
  show ?case by (rule exI [of _ "heap csp"]) simp
next
  case (Cons p removed)
  obtain variable val where p: "p = (variable, val)" by (cases p)
  show ?case
  proof (cases "variables csp variable")
    case None
    show ?thesis using None p by (intro exI [of _ "heap csp"]) simp
  next
    case (Some l)
    let ?c = "csp\<lparr> heap := (heap csp)(l := heap csp l @ [val]) \<rparr>"
    from Cons.IH [of ?c] obtain h where
      h: "snd (restore_value removed ?c) = ?c\<lparr> heap := h \<rparr>" by blast
    have run: "restore_value (p # removed) csp = restore_value removed ?c"
      using Some p by simp
    have "snd (restore_value (p # removed) csp) = csp\<lparr> heap := h \<rparr>"
      using h run by simp
    then show ?thesis by blast
  qed
qed

lemma restore_value_frame [simp]:
  "variables (snd (restore_value removed csp)) = variables csp"
  "unassigned_var (snd (restore_value removed csp)) = unassigned_var csp"
  "assignments (snd (restore_value removed csp)) = assignments csp"
  "var_constraints (snd (restore_value removed csp)) = var_constraints csp"
  "constraints (snd (restore_value removed csp)) = constraints csp"
  "assignments_number (snd (restore_value removed csp)) = assignments_number csp"
proof -
  from restore_value_unchanged_fields [of removed csp] obtain h where
    h: "snd (restore_value removed csp) = csp\<lparr> heap := h \<rparr>" by blast
  show "variables (snd (restore_value removed csp)) = variables csp"
    "unassigned_var (snd (restore_value removed csp)) = unassigned_var csp"
    "assignments (snd (restore_value removed csp)) = assignments csp"
    "var_constraints (snd (restore_value removed csp)) = var_constraints csp"
    "constraints (snd (restore_value removed csp)) = constraints csp"
    "assignments_number (snd (restore_value removed csp)) = assignments_number csp"
    unfolding h by simp_all
qed

lemma count_list_remove1:
  "count_list (remove1 v xs) w = (if v = w \<and> v \<in> set xs then count_list xs w - 1 else count_list xs w)"
  by (induction xs) auto

lemma assign_result_pending:
  "variable \<in> set (unassigned_var csp) \<Longrightarrow>
   snd (assign variable val csp) =
     csp\<lparr> assignments := (assignments csp)(variable \<mapsto> val),
          unassigned_var := remove1 variable (unassigned_var csp),
          assignments_number := assignments_number csp + 1 \<rparr>"
  by (simp add: assign_def Let_def)

lemma assign_result_not_pending:
  "variable \<notin> set (unassigned_var csp) \<Longrightarrow>
   snd (assign variable val csp) = csp\<lparr> assignments := (assignments csp)(variable \<mapsto> val) \<rparr>"
  by (simp add: assign_def Let_def)

lemma assign_invariant:
  assumes "assignment_invariant csp"
  shows "assignment_invariant (snd (assign variable val csp))"
proof (cases "variable \<in> set (unassigned_var csp)")
  case False
  show ?thesis
    unfolding assignment_invariant_def assign_result_not_pending [OF False]
  proof (intro allI impI)
    fix v
    assume "variables (csp\<lparr> assignments := (assignments csp)(variable \<mapsto> val) \<rparr>) v \<noteq> None"
    then have "variables csp v \<noteq> None" by simp
    with assms have old: "(count_list (unassigned_var csp) v = 1 \<and> assignments csp v = None) \<or>
        (v \<notin> set (unassigned_var csp) \<and> assignments csp v \<noteq> None)"
      by (simp add: assignment_invariant_def)
    show "(count_list (unassigned_var (csp\<lparr> assignments := (assignments csp)(variable \<mapsto> val) \<rparr>)) v = 1 \<and>
         assignments (csp\<lparr> assignments := (assignments csp)(variable \<mapsto> val) \<rparr>) v = None) \<or>
        (v \<notin> set (unassigned_var (csp\<lparr> assignments := (assignments csp)(variable \<mapsto> val) \<rparr>)) \<and>
         assignments (csp\<lparr> assignments := (assignments csp)(variable \<mapsto> val) \<rparr>) v \<noteq> None)"
    proof (cases "v = variable")
      case True
      then show ?thesis using False by simp
    next
      case ne: False
      then show ?thesis using old by simp
    qed
  qed
next
  case True
  let ?c = "csp\<lparr> assignments := (assignments csp)(variable \<mapsto> val),
          unassigned_var := remove1 variable (unassigned_var csp),
          assignments_number := assignments_number csp + 1 \<rparr>"
  show ?thesis
    unfolding assignment_invariant_def assign_result_pending [OF True]
  proof (intro allI impI)
    fix v
    assume "variables ?c v \<noteq> None"
    then have "variables csp v \<noteq> None" by simp
    with assms have old: "(count_list (unassigned_var csp) v = 1 \<and> assignments csp v = None) \<or>
        (v \<notin> set (unassigned_var csp) \<and> assignments csp v \<noteq> None)"
      by (simp add: assignment_invariant_def)
    show "(count_list (unassigned_var ?c) v = 1 \<and> assignments ?c v = None) \<or>
        (v \<notin> set (unassigned_var ?c) \<and> assignments ?c v \<noteq> None)"
    proof (cases "v = variable")
      case same: True
      from old True same have "count_list (unassigned_var csp) variable = 1"
        by (elim disjE conjE) simp_all
      then have "count_list (remove1 variable (unassigned_var csp)) variable = 0"
        by (simp add: count_list_remove1)
      then have "variable \<notin> set (remove1 variable (unassigned_var csp))"
        by (rule iffD1 [OF count_list_0_iff])
      then show ?thesis using same by simp
    next
      case False
      then have "count_list (remove1 variable (unassigned_var csp)) v = count_list (unassigned_var csp) v"
        by (simp add: count_list_remove1)
      then show ?thesis using old False by simp
    qed
  qed
qed

lemma add_variable_invariant:
  assumes "assignment_invariant csp" and "variables csp variable = None"
      and "variable \<notin> set (unassigned_var csp)" and "assignments csp variable = None"
  shows "assignment_invariant (add_variable variable domain csp)"
  unfolding assignment_invariant_def
proof (intro allI impI)
  fix v
  assume reg: "variables (add_variable variable domain csp) v \<noteq> None"
  show "(count_list (unassigned_var (add_variable variable domain csp)) v = 1 \<and>
         assignments (add_variable variable domain csp) v = None) \<or>
        (v \<notin> set (unassigned_var (add_variable variable domain csp)) \<and>
         assignments (add_variable variable domain csp) v \<noteq> None)"
  proof (cases "v = variable")
    case True
    then show ?thesis using assms(3,4) by (simp add: add_variable_def)
  next
    case False
    then have "variables csp v \<noteq> None" using reg by (simp add: add_variable_def)
    with assms(1) have "(count_list (unassigned_var csp) v = 1 \<and> assignments csp v = None) \<or>
        (v \<notin> set (unassigned_var csp) \<and> assignments csp v \<noteq> None)"
      by (simp add: assignment_invariant_def)
    then show ?thesis using False by (simp add: add_variable_def)
  qed
qed

lemma unassign_result_assigned:
  "assignments csp variable \<noteq> None \<Longrightarrow>
   snd (unassign removed variable csp) =
     snd (restore_value removed
            (csp\<lparr> assignments := (assignments csp)(variable := None),
                  unassigned_var := unassigned_var csp @ [variable] \<rparr>))"
  by (simp add: unassign_def)

lemma unassign_invariant:
  assumes "assignment_invariant csp"
  shows "assignment_invariant (snd (unassign removed variable csp))"
proof (cases "assignments csp variable = None")
  case True
  then show ?thesis using assms by (simp add: unassign_def)
next
  case False
  let ?c = "csp\<lparr> assignments := (assignments csp)(variable := None),
                   unassigned_var := unassigned_var csp @ [variable] \<rparr>"
  show ?thesis
    unfolding assignment_invariant_def unassign_result_assigned [OF False]
  proof (intro allI impI)
    fix v
    assume "variables (snd (restore_value removed ?c)) v \<noteq> None"
    then have "variables csp v \<noteq> None" by simp
    with assms have old: "(count_list (unassigned_var csp) v = 1 \<and> assignments csp v = None) \<or>
        (v \<notin> set (unassigned_var csp) \<and> assignments csp v \<noteq> None)"
      by (simp add: assignment_invariant_def)
    show "(count_list (unassigned_var (snd (restore_value removed ?c))) v = 1 \<and>
           assignments (snd (restore_value removed ?c)) v = None) \<or>
        (v \<notin> set (unassigned_var (snd (restore_value removed ?c))) \<and>
           assignments (snd (restore_value removed ?c)) v \<noteq> None)"
    proof (cases "v = variable")
      case True
      with old False have "variable \<notin> set (unassigned_var csp)"
        by (elim disjE conjE) simp_all
      then show ?thesis using True by simp
    next
      case ne: False
      then show ?thesis using old by simp
    qed
  qed
qed

text \<open>
  C9, as the code has it. The invariant survives every sequence of \<open>add_variable\<close>,
  \<open>assign\<close> and \<open>unassign\<close> (exceptions included) in which \<open>add_variable\<close> is only
  called for a name that is not yet registered, pending or assigned.
\<close>

theorem assignment_invariant_preserved:
  assumes "assignment_invariant csp" and "fresh_additions ops csp"
  shows "assignment_invariant (run_operations ops csp)"
  using assms
proof (induction ops arbitrary: csp)
  case Nil
  then show ?case by simp
next
  case (Cons op ops)
  have "assignment_invariant (run_operation op csp)"
  proof (cases op)
    case (AddVariable variable domain)
    then show ?thesis using Cons.prems by (simp add: add_variable_invariant)
  next
    case (Assign variable val)
    then show ?thesis using Cons.prems by (simp add: assign_invariant)
  next
    case (Unassign removed variable)
    then show ?thesis using Cons.prems by (simp add: unassign_invariant)
  qed
  then show ?case using Cons by simp
qed

theorem assignment_invariant_preserved_witness:
  "assignment_invariant two_lists_model \<and>
   fresh_additions example_operations two_lists_model \<and>
   assignment_invariant (run_operations example_operations two_lists_model) \<and>
   unassigned_var (run_operations example_operations two_lists_model) = [var_B, var_A] \<and>
   assignments (run_operations example_operations two_lists_model) var_A = None \<and>
   domain_of (run_operations example_operations two_lists_model) var_B = Some [Red, Blue]"
proof -
  have start: "assignment_invariant two_lists_model"
    by (simp add: assignment_invariant_def two_lists_model_def model_eval)
  have fresh: "fresh_additions example_operations two_lists_model"
    by (simp add: example_operations_def two_lists_model_def model_eval)
  have pending: "unassigned_var (run_operations example_operations two_lists_model) = [var_B, var_A]"
    by (simp add: example_operations_def two_lists_model_def model_eval)
  have unbound: "assignments (run_operations example_operations two_lists_model) var_A = None"
    by (simp add: example_operations_def two_lists_model_def model_eval)
  have dom_B: "domain_of (run_operations example_operations two_lists_model) var_B = Some [Red, Blue]"
    by (simp add: example_operations_def two_lists_model_def model_eval)
  show ?thesis
    using start fresh pending unbound dom_B assignment_invariant_preserved [OF start fresh]
    by simp
qed

text \<open>
  C9 as stated fails: a second \<open>add_variable\<close> for A puts A into the pending list twice.
\<close>

theorem assignment_invariant_counterexample:
  "assignment_invariant two_lists_model \<and>
   domain_of (run_operations duplicate_additions two_lists_model) var_A = Some [Red] \<and>
   unassigned_var (run_operations duplicate_additions two_lists_model) = [var_A, var_A] \<and>
   \<not> assignment_invariant (run_operations duplicate_additions two_lists_model)"
proof -
  have start: "assignment_invariant two_lists_model"
    by (simp add: assignment_invariant_def two_lists_model_def model_eval)
  have dom_A: "domain_of (run_operations duplicate_additions two_lists_model) var_A = Some [Red]"
    by (simp add: duplicate_additions_def two_lists_model_def model_eval)
  have reg_A: "variables (run_operations duplicate_additions two_lists_model) var_A \<noteq> None"
    by (simp add: duplicate_additions_def two_lists_model_def model_eval)
  have pending: "unassigned_var (run_operations duplicate_additions two_lists_model) = [var_A, var_A]"
    by (simp add: duplicate_additions_def two_lists_model_def model_eval)
  have unbound: "assignments (run_operations duplicate_additions two_lists_model) var_A = None"
    by (simp add: duplicate_additions_def two_lists_model_def model_eval)
  have "\<not> assignment_invariant (run_operations duplicate_additions two_lists_model)"
  proof
    assume "assignment_invariant (run_operations duplicate_additions two_lists_model)"
    then have "(count_list (unassigned_var (run_operations duplicate_additions two_lists_model)) var_A = 1 \<and>
          assignments (run_operations duplicate_additions two_lists_model) var_A = None) \<or>
         (var_A \<notin> set (unassigned_var (run_operations duplicate_additions two_lists_model)) \<and>
          assignments (run_operations duplicate_additions two_lists_model) var_A \<noteq> None)"
      using reg_A unfolding assignment_invariant_def by simp
    then show False unfolding pending unbound by simp
  qed
  with start dom_A pending show ?thesis by simp
qed

section \<open>apply_AC3\<close>

text \<open>\<open>arc_reduce\<close> changes lists in place; no variable is bound to another list.\<close>

lemma arc_reduce_loop_variables:
  "variables (snd (arc_reduce_loop lx y consistent i removed_values csp)) = variables csp"
proof (induction lx y consistent i removed_values csp rule: arc_reduce_loop.induct)
  case (1 lx y consistent i removed_values csp)
  show ?case
    by (subst arc_reduce_loop.simps) (simp add: 1 split: option.splits)
qed

lemma arc_reduce_variables:
  "variables (snd (arc_reduce x y consistent csp)) = variables csp"
  by (simp add: arc_reduce_def arc_reduce_loop_variables split: option.splits)

lemma arc_reduce_registered:
  assumes "arc_reduce x y consistent csp = (Inr r, csp')"
  shows "variables csp' x \<noteq> None"
proof
  assume none: "variables csp' x = None"
  have "variables csp' = variables csp"
    using arc_reduce_variables [of x y consistent csp] assms by simp
  with none have "variables csp x = None" by simp
  then have "arc_reduce x y consistent csp = (Inl KeyError, csp)"
    by (simp add: arc_reduce_def)
  with assms show False by simp
qed

text \<open>One iteration of the loop: the arc is skipped, raises, ends the loop, or is followed by the next.\<close>

lemma apply_AC3_loop_skip:
  "\<not> is_str (fst (snd a)) \<or> \<not> is_str (snd (snd a)) \<Longrightarrow>
   apply_AC3_loop (a # queue) removed csp = apply_AC3_loop queue removed csp"
  by (cases a) auto

lemma apply_AC3_loop_error:
  "is_str (fst (snd a)) \<Longrightarrow> is_str (snd (snd a)) \<Longrightarrow>
   arc_reduce (fst (snd a)) (snd (snd a)) (fst a) csp = (Inl e, csp1) \<Longrightarrow>
   apply_AC3_loop (a # queue) removed csp = (Inl e, csp1)"
  by (cases a) auto

lemma apply_AC3_loop_stop:
  "is_str (fst (snd a)) \<Longrightarrow> is_str (snd (snd a)) \<Longrightarrow>
   arc_reduce (fst (snd a)) (snd (snd a)) (fst a) csp = (Inr r, csp1) \<Longrightarrow>
   domain_of csp1 (fst (snd a)) = Some [] \<Longrightarrow>
   apply_AC3_loop (a # queue) removed csp
     = (Inr (removed @ map (Pair (fst (snd a))) r), csp1)"
  by (cases a) (auto simp: domain_of_def)

lemma apply_AC3_loop_continue:
  "is_str (fst (snd a)) \<Longrightarrow> is_str (snd (snd a)) \<Longrightarrow>
   arc_reduce (fst (snd a)) (snd (snd a)) (fst a) csp = (Inr r, csp1) \<Longrightarrow>
   domain_of csp1 (fst (snd a)) = Some d \<Longrightarrow> d \<noteq> [] \<Longrightarrow>
   apply_AC3_loop (a # queue) removed csp
     = apply_AC3_loop queue (removed @ map (Pair (fst (snd a))) r) csp1"
  by (cases a) (auto simp: domain_of_def)

lemma reduce_arc_skip:
  "\<not> is_str (fst (snd a)) \<or> \<not> is_str (snd (snd a)) \<Longrightarrow>
   reduce_arc (Inr removed, csp) a = (Inr removed, csp)"
  by (auto simp: reduce_arc_def)

lemma reduce_arc_error:
  "is_str (fst (snd a)) \<Longrightarrow> is_str (snd (snd a)) \<Longrightarrow>
   arc_reduce (fst (snd a)) (snd (snd a)) (fst a) csp = (Inl e, csp1) \<Longrightarrow>
   reduce_arc (Inr removed, csp) a = (Inl e, csp1)"
  by (simp add: reduce_arc_def)

lemma reduce_arc_reduced:
  "is_str (fst (snd a)) \<Longrightarrow> is_str (snd (snd a)) \<Longrightarrow>
   arc_reduce (fst (snd a)) (snd (snd a)) (fst a) csp = (Inr r, csp1) \<Longrightarrow>
   reduce_arc (Inr removed, csp) a = (Inr (removed @ map (Pair (fst (snd a))) r), csp1)"
  by (simp add: reduce_arc_def)

lemma arc_emptied_skip:
  "\<not> is_str (fst (snd a)) \<or> \<not> is_str (snd (snd a)) \<Longrightarrow> \<not> arc_emptied a csp"
  by (auto simp: arc_emptied_def)

text \<open>
  The arcs a run of the loop pops are a prefix of its deque, and the run returns what
  reducing each arc of that prefix once returns.
\<close>

lemma apply_AC3_loop_single_pass:
  "\<exists>done rest. queue = done @ rest \<and>
     foldl reduce_arc (Inr removed, csp) done = apply_AC3_loop queue removed csp \<and>
     (rest \<noteq> [] \<longrightarrow> done \<noteq> [] \<and>
        (isl (fst (apply_AC3_loop queue removed csp)) \<or>
         arc_emptied (last done) (snd (apply_AC3_loop queue removed csp)))) \<and>
     (\<forall>p a q. done = p @ a # q \<and> q \<noteq> [] \<longrightarrow>
        (\<exists>r1 c1. foldl reduce_arc (Inr removed, csp) (p @ [a]) = (Inr r1, c1) \<and>
                 \<not> arc_emptied a c1))"
proof (induction queue arbitrary: removed csp)
  case Nil
  show ?case by simp
next
  case (Cons a queue)
  let ?x = "fst (snd a)" and ?y = "snd (snd a)"
  show ?case
  proof (cases "\<not> is_str ?x \<or> \<not> is_str ?y")
    case True
    have run: "apply_AC3_loop (a # queue) removed csp = apply_AC3_loop queue removed csp"
      using apply_AC3_loop_skip [OF True] .
    have step: "reduce_arc (Inr removed, csp) a = (Inr removed, csp)"
      using reduce_arc_skip [OF True] .
    from Cons.IH [of removed csp] obtain done0 rest where
      d1: "queue = done0 @ rest"
      and d2: "foldl reduce_arc (Inr removed, csp) done0 = apply_AC3_loop queue removed csp"
      and d3: "rest \<noteq> [] \<longrightarrow> done0 \<noteq> [] \<and>
        (isl (fst (apply_AC3_loop queue removed csp)) \<or>
         arc_emptied (last done0) (snd (apply_AC3_loop queue removed csp)))"
      and d4: "\<forall>p b q. done0 = p @ b # q \<and> q \<noteq> [] \<longrightarrow>
        (\<exists>r1 c1. foldl reduce_arc (Inr removed, csp) (p @ [b]) = (Inr r1, c1) \<and>
                 \<not> arc_emptied b c1)"
      by blast
    have e1: "a # queue = (a # done0) @ rest" using d1 by simp
    have e2: "foldl reduce_arc (Inr removed, csp) (a # done0)
                = apply_AC3_loop (a # queue) removed csp"
      using d2 by (simp only: run foldl_Cons step)
    have e3: "rest \<noteq> [] \<longrightarrow> a # done0 \<noteq> [] \<and>
        (isl (fst (apply_AC3_loop (a # queue) removed csp)) \<or>
         arc_emptied (last (a # done0)) (snd (apply_AC3_loop (a # queue) removed csp)))"
      using d3 by (simp add: run)
    have e4: "\<forall>p b q. a # done0 = p @ b # q \<and> q \<noteq> [] \<longrightarrow>
        (\<exists>r1 c1. foldl reduce_arc (Inr removed, csp) (p @ [b]) = (Inr r1, c1) \<and>
                 \<not> arc_emptied b c1)"
    proof (intro allI impI)
      fix p b q
      assume h: "a # done0 = p @ b # q \<and> q \<noteq> []"
      show "\<exists>r1 c1. foldl reduce_arc (Inr removed, csp) (p @ [b]) = (Inr r1, c1) \<and>
                 \<not> arc_emptied b c1"
      proof (cases p)
        case Nil
        with h have "b = a" by simp
        moreover have "foldl reduce_arc (Inr removed, csp) [a] = (Inr removed, csp)"
          by (simp add: step)
        moreover have "\<not> arc_emptied a csp" using arc_emptied_skip [OF True] .
        ultimately show ?thesis using Nil by simp
      next
        case (Cons a' p')
        with h have "a' = a" "done0 = p' @ b # q" by simp_all
        with d4 h obtain r1 c1 where
          "foldl reduce_arc (Inr removed, csp) (p' @ [b]) = (Inr r1, c1)" "\<not> arc_emptied b c1"
          by blast
        then show ?thesis using Cons \<open>a' = a\<close> by (simp add: step)
      qed
    qed
    from e1 e2 e3 e4 show ?thesis by blast
  next
    case False
    then have sx: "is_str ?x" and sy: "is_str ?y" by simp_all
    obtain res csp1 where ar: "arc_reduce ?x ?y (fst a) csp = (res, csp1)"
      by (cases "arc_reduce ?x ?y (fst a) csp")
    show ?thesis
    proof (cases res)
      case (Inl e)
      have run: "apply_AC3_loop (a # queue) removed csp = (Inl e, csp1)"
        using apply_AC3_loop_error [OF sx sy] ar Inl by simp
      have step: "reduce_arc (Inr removed, csp) a = (Inl e, csp1)"
        using reduce_arc_error [OF sx sy] ar Inl by simp
      have e1: "a # queue = [a] @ queue" by simp
      have e2: "foldl reduce_arc (Inr removed, csp) [a] = apply_AC3_loop (a # queue) removed csp"
        by (simp add: run step)
      have e3: "queue \<noteq> [] \<longrightarrow> [a] \<noteq> [] \<and>
        (isl (fst (apply_AC3_loop (a # queue) removed csp)) \<or>
         arc_emptied (last [a]) (snd (apply_AC3_loop (a # queue) removed csp)))"
        by (simp add: run)
      have e4: "\<forall>p b q. [a] = p @ b # q \<and> q \<noteq> [] \<longrightarrow>
        (\<exists>r1 c1. foldl reduce_arc (Inr removed, csp) (p @ [b]) = (Inr r1, c1) \<and>
                 \<not> arc_emptied b c1)"
        by (simp add: Cons_eq_append_conv)
      from e1 e2 e3 e4 show ?thesis by blast
    next
      case (Inr r)
      let ?r1 = "removed @ map (Pair ?x) r"
      have ar': "arc_reduce ?x ?y (fst a) csp = (Inr r, csp1)" using ar Inr by simp
      have step: "reduce_arc (Inr removed, csp) a = (Inr ?r1, csp1)"
        using reduce_arc_reduced [OF sx sy ar'] .
      from arc_reduce_registered [OF ar'] obtain l where l: "variables csp1 ?x = Some l"
        by blast
      then have dom: "domain_of csp1 ?x = Some (heap csp1 l)" by (simp add: domain_of_def)
      show ?thesis
      proof (cases "heap csp1 l = []")
        case True
        have emptied: "domain_of csp1 ?x = Some []" using dom True by simp
        have run: "apply_AC3_loop (a # queue) removed csp = (Inr ?r1, csp1)"
          using apply_AC3_loop_stop [OF sx sy ar' emptied] .
        have e1: "a # queue = [a] @ queue" by simp
        have e2: "foldl reduce_arc (Inr removed, csp) [a] = apply_AC3_loop (a # queue) removed csp"
          by (simp add: run step)
        have e3: "queue \<noteq> [] \<longrightarrow> [a] \<noteq> [] \<and>
          (isl (fst (apply_AC3_loop (a # queue) removed csp)) \<or>
           arc_emptied (last [a]) (snd (apply_AC3_loop (a # queue) removed csp)))"
          using sx sy emptied by (simp add: run arc_emptied_def)
        have e4: "\<forall>p b q. [a] = p @ b # q \<and> q \<noteq> [] \<longrightarrow>
          (\<exists>r1 c1. foldl reduce_arc (Inr removed, csp) (p @ [b]) = (Inr r1, c1) \<and>
                   \<not> arc_emptied b c1)"
          by (simp add: Cons_eq_append_conv)
        from e1 e2 e3 e4 show ?thesis by blast
      next
        case nonempty: False
        have run: "apply_AC3_loop (a # queue) removed csp = apply_AC3_loop queue ?r1 csp1"
          using apply_AC3_loop_continue [OF sx sy ar' dom nonempty] .
        from Cons.IH [of ?r1 csp1] obtain done0 rest where
          d1: "queue = done0 @ rest"
          and d2: "foldl reduce_arc (Inr ?r1, csp1) done0 = apply_AC3_loop queue ?r1 csp1"
          and d3: "rest \<noteq> [] \<longrightarrow> done0 \<noteq> [] \<and>
            (isl (fst (apply_AC3_loop queue ?r1 csp1)) \<or>
             arc_emptied (last done0) (snd (apply_AC3_loop queue ?r1 csp1)))"
          and d4: "\<forall>p b q. done0 = p @ b # q \<and> q \<noteq> [] \<longrightarrow>
            (\<exists>r1 c1. foldl reduce_arc (Inr ?r1, csp1) (p @ [b]) = (Inr r1, c1) \<and>
                     \<not> arc_emptied b c1)"
          by blast
        have e1: "a # queue = (a # done0) @ rest" using d1 by simp
        have e2: "foldl reduce_arc (Inr removed, csp) (a # done0)
                    = apply_AC3_loop (a # queue) removed csp"
          using d2 by (simp only: run foldl_Cons step)
        have e3: "rest \<noteq> [] \<longrightarrow> a # done0 \<noteq> [] \<and>
            (isl (fst (apply_AC3_loop (a # queue) removed csp)) \<or>
             arc_emptied (last (a # done0)) (snd (apply_AC3_loop (a # queue) removed csp)))"
          using d3 by (simp add: run)
        have e4: "\<forall>p b q. a # done0 = p @ b # q \<and> q \<noteq> [] \<longrightarrow>
            (\<exists>r1 c1. foldl reduce_arc (Inr removed, csp) (p @ [b]) = (Inr r1, c1) \<and>
                     \<not> arc_emptied b c1)"
        proof (intro allI impI)
          fix p b q
          assume h: "a # done0 = p @ b # q \<and> q \<noteq> []"
          show "\<exists>r1 c1. foldl reduce_arc (Inr removed, csp) (p @ [b]) = (Inr r1, c1) \<and>
                     \<not> arc_emptied b c1"
          proof (cases p)
            case Nil
            with h have "b = a" by simp
            moreover have "foldl reduce_arc (Inr removed, csp) [a] = (Inr ?r1, csp1)"
              by (simp add: step)
            moreover have "\<not> arc_emptied a csp1"
              using dom nonempty by (simp add: arc_emptied_def)
            ultimately show ?thesis using Nil by simp
          next
            case (Cons a' p')
            with h have "a' = a" "done0 = p' @ b # q" by simp_all
            with d4 h obtain r1 c1 where
              "foldl reduce_arc (Inr ?r1, csp1) (p' @ [b]) = (Inr r1, c1)" "\<not> arc_emptied b c1"
              by blast
            then show ?thesis using Cons \<open>a' = a\<close> by (simp add: step)
          qed
        qed
        from e1 e2 e3 e4 show ?thesis by blast
      qed
    qed
  qed
qed

text \<open>
  C4. The arcs \<open>apply_AC3\<close> pops are a prefix \<open>done\<close> of the registered constraint
  list, and what it returns (the removal list or the exception, and the model) is what
  the single pass over \<open>done\<close> returns: each of these arcs is reduced by one call of
  \<open>arc_reduce\<close>, in order, none is reduced again after a domain has shrunk, and the
  removal list holds the removals of these calls. If arcs are left over, the last arc
  popped raised an exception or left the domain of its first variable empty; and no arc
  popped before the last had done so, so the loop ended at the first empty domain, with
  the removals accumulated until then.
\<close>

theorem apply_AC3_single_pass:
  "\<exists>done rest.
     constraints csp = done @ rest \<and>
     apply_AC3 csp = single_pass done csp \<and>
     (rest \<noteq> [] \<longrightarrow> done \<noteq> [] \<and>
        (isl (fst (apply_AC3 csp)) \<or> arc_emptied (last done) (snd (apply_AC3 csp)))) \<and>
     (\<forall>p a q. done = p @ a # q \<and> q \<noteq> [] \<longrightarrow>
        (\<exists>r1 c1. single_pass (p @ [a]) csp = (Inr r1, c1) \<and> \<not> arc_emptied a c1))"
proof -
  from apply_AC3_loop_single_pass [of "constraints csp" "[]" csp] obtain done0 rest where
    d1: "constraints csp = done0 @ rest"
    and d2: "foldl reduce_arc (Inr [], csp) done0 = apply_AC3_loop (constraints csp) [] csp"
    and d3: "rest \<noteq> [] \<longrightarrow> done0 \<noteq> [] \<and>
        (isl (fst (apply_AC3_loop (constraints csp) [] csp)) \<or>
         arc_emptied (last done0) (snd (apply_AC3_loop (constraints csp) [] csp)))"
    and d4: "\<forall>p a q. done0 = p @ a # q \<and> q \<noteq> [] \<longrightarrow>
        (\<exists>r1 c1. foldl reduce_arc (Inr [], csp) (p @ [a]) = (Inr r1, c1) \<and>
                 \<not> arc_emptied a c1)"
    by blast
  have e2: "apply_AC3 csp = single_pass done0 csp"
    using d2 by (simp add: apply_AC3_def single_pass_def)
  have e3: "rest \<noteq> [] \<longrightarrow> done0 \<noteq> [] \<and>
        (isl (fst (apply_AC3 csp)) \<or> arc_emptied (last done0) (snd (apply_AC3 csp)))"
    using d3 by (simp add: apply_AC3_def)
  have e4: "\<forall>p a q. done0 = p @ a # q \<and> q \<noteq> [] \<longrightarrow>
        (\<exists>r1 c1. single_pass (p @ [a]) csp = (Inr r1, c1) \<and> \<not> arc_emptied a c1)"
    using d4 by (simp add: single_pass_def)
  from d1 e2 e3 e4 show ?thesis by blast
qed

text \<open>
  On the chain model the third arc, (B, C), empties the domain of B; the fourth arc is
  never reduced.
\<close>

theorem apply_AC3_single_pass_witness:
  "map snd (constraints chain_model)
     = [(var_A, var_B), (var_B, var_A), (var_B, var_C), (var_C, var_B)] \<and>
   fst (apply_AC3 chain_model) = Inr [(var_B, Red), (var_B, Blue)] \<and>
   domain_of (snd (apply_AC3 chain_model)) var_B = Some [] \<and>
   (\<exists>done rest.
      constraints chain_model = done @ rest \<and> rest \<noteq> [] \<and> done \<noteq> [] \<and>
      apply_AC3 chain_model = single_pass done chain_model \<and>
      arc_emptied (last done) (snd (apply_AC3 chain_model)))"
proof -
  let ?ab = "(py_ne, (var_A, var_B))" and ?ba = "(py_ne, (var_B, var_A))"
  let ?bc = "(py_ne, (var_B, var_C))" and ?cb = "(py_ne, (var_C, var_B))"
  have arcs: "constraints chain_model = [?ab, ?ba, ?bc, ?cb]"
    by (simp add: chain_model_def model_eval)
  have removed: "fst (apply_AC3 chain_model) = Inr [(var_B, Red), (var_B, Blue)]"
    by (simp add: chain_model_def model_eval arc_reduce_loop.simps)
  have dom_B: "domain_of (snd (apply_AC3 chain_model)) var_B = Some []"
    by (simp add: chain_model_def model_eval arc_reduce_loop.simps)
  have third: "arc_emptied ?bc (snd (single_pass [?ab, ?ba, ?bc] chain_model))"
    by (simp add: chain_model_def model_eval arc_reduce_loop.simps arc_emptied_def
          single_pass_def reduce_arc_def)
  from apply_AC3_single_pass [of chain_model] obtain done0 rest where
    d1: "constraints chain_model = done0 @ rest"
    and d2: "apply_AC3 chain_model = single_pass done0 chain_model"
    and d3: "rest \<noteq> [] \<longrightarrow> done0 \<noteq> [] \<and>
        (isl (fst (apply_AC3 chain_model)) \<or>
         arc_emptied (last done0) (snd (apply_AC3 chain_model)))"
    and d4: "\<forall>p a q. done0 = p @ a # q \<and> q \<noteq> [] \<longrightarrow>
        (\<exists>r1 c1. single_pass (p @ [a]) chain_model = (Inr r1, c1) \<and> \<not> arc_emptied a c1)"
    by blast
  have left: "rest \<noteq> []"
  proof
    assume "rest = []"
    with d1 arcs have "done0 = [?ab, ?ba] @ ?bc # [?cb]" by simp
    with d4 obtain r1 c1 where
      "single_pass ([?ab, ?ba] @ [?bc]) chain_model = (Inr r1, c1)" "\<not> arc_emptied ?bc c1"
      by blast
    with third show False by simp
  qed
  have "\<not> isl (fst (apply_AC3 chain_model))" using removed by simp
  with d3 left have "done0 \<noteq> []" "arc_emptied (last done0) (snd (apply_AC3 chain_model))"
    by simp_all
  with d1 d2 left have "\<exists>done rest.
      constraints chain_model = done @ rest \<and> rest \<noteq> [] \<and> done \<noteq> [] \<and>
      apply_AC3 chain_model = single_pass done chain_model \<and>
      arc_emptied (last done) (snd (apply_AC3 chain_model))"
    by blast
  moreover have "map snd (constraints chain_model)
     = [(var_A, var_B), (var_B, var_A), (var_B, var_C), (var_C, var_B)]"
    using arcs by simp
  ultimately show ?thesis using removed dom_B by simp
qed

section \<open>backtrack_solver\<close>

text \<open>
  C1 at a failing input. The docstring of \<open>backtrack_solver\<close> promises assignments
  "that satisfy all constraints". In the model below the table constraint "not (Red, Blue)"
  is registered for (A, B), and nothing is keyed on B but the dummy constraint. The
  constraint is checked when A is assigned, with B still unbound and \<open>[]\<close> in its place;
  when B is assigned only the constraints keyed on B are consulted, and forward checking
  has removed from B's domain the value of A and nothing else. The solver returns
  A = Red, B = Blue, which the registered predicate rejects.
\<close>

theorem backtrack_solver_returns_rejected_pair:
  "constraints directed_model
     = [(not_red_blue, (var_A, var_B)), (py_ne, (var_B, NoneVar))] \<and>
   var_constraints directed_model var_A = Some [(not_red_blue, (var_A, var_B))] \<and>
   \<not> not_red_blue Red Blue \<and>
   (case backtrack_solver 3 plain_solver directed_model of
      Some (Inr (Some a), c) \<Rightarrow> a var_A = Some Red \<and> a var_B = Some Blue
    | _ \<Rightarrow> False)"
proof -
  have arcs: "constraints directed_model
     = [(not_red_blue, (var_A, var_B)), (py_ne, (var_B, NoneVar))]"
    by (simp add: directed_model_def add_constraint_def add_constraint_scan_def
          add_variable_literal_def add_variable_def new_list_def init_CSP_def Let_def)
  have keyed: "var_constraints directed_model var_A = Some [(not_red_blue, (var_A, var_B))]"
    by (simp add: directed_model_def add_constraint_def add_constraint_scan_def
          add_variable_literal_def add_variable_def new_list_def init_CSP_def Let_def)
  have rejected: "\<not> not_red_blue Red Blue"
    by (simp add: not_red_blue_def)
  have run: "(case backtrack_solver 3 plain_solver directed_model of
      Some (Inr (Some a), c) \<Rightarrow> a var_A = Some Red \<and> a var_B = Some Blue
    | _ \<Rightarrow> False)"
    by code_simp
  from arcs keyed rejected run show ?thesis by blast
qed

text \<open>
  C2 at a failing input: the triangle model, solved with AC-3 enabled. The AC-3 run of
  the first call removes nothing, A is selected and Red is tried. \<open>remove_value\<close> logs
  (A, Green), (B, Red), (C, Red). The recursive call runs AC-3, which at the arc (B, C)
  removes Blue from the domain of B, leaves it empty and returns the log [(B, Blue)];
  B is selected, its list has no value to try, and the call returns None: its log is
  dropped with its frame. \<open>unassign\<close> restores the three logged values of the outer
  frame. Before the branch the domain of B was [Red, Blue]; after it, it is [Red].
\<close>

theorem failed_branch_drops_AC3_removal:
  "AC_3 AC3_solver \<and>
   fst (apply_AC3 triangle_model) = Inr [] \<and>
   domain_of (snd (apply_AC3 triangle_model)) var_A = Some [Red, Green] \<and>
   domain_of (snd (apply_AC3 triangle_model)) var_B = Some [Red, Blue] \<and>
   domain_of (snd (apply_AC3 triangle_model)) var_C = Some [Red, Blue] \<and>
   select_unassigned_variable AC3_solver (snd (apply_AC3 triangle_model)) = Inr var_A \<and>
   is_consistent var_A Red (snd (apply_AC3 triangle_model)) \<and>
   \<not> is_assigned var_A (snd (apply_AC3 triangle_model)) \<and>
   (case try_branch (backtrack_solver 2 AC3_solver) var_A Red []
           (snd (apply_AC3 triangle_model)) of
      Some (Inr None, c) \<Rightarrow>
        domain_of c var_A = Some [Red, Green] \<and>
        domain_of c var_B = Some [Red] \<and>
        domain_of c var_C = Some [Blue, Red]
    | _ \<Rightarrow> False)"
  by code_simp

text \<open>
  What the lost value costs. On the kite model the first AC-3 run removes Red from the
  domain of B (D is Red). The branch A = Red fails as above and loses Blue for B, and
  \<open>unassign\<close> puts back the Red that the first run had removed; in the branch
  A = Green the domain of B is [Red], AC-3 empties it, and the solver returns None. The
  colouring A = Green, B = Blue, C = Red, D = Red satisfies every registered arc, and the
  solver finds it when AC-3 is disabled.
\<close>

lemma AC3_solver_misses_colouring:
  "satisfies kite_colouring (constraints kite_model) \<and>
   (case backtrack_solver 5 AC3_solver kite_model of
      Some (Inr None, c) \<Rightarrow> True
    | _ \<Rightarrow> False) \<and>
   (case backtrack_solver 5 plain_solver kite_model of
      Some (Inr (Some a), c) \<Rightarrow> map a [var_A, var_B, var_C, var_D] = map kite_colouring [var_A, var_B, var_C, var_D]
    | _ \<Rightarrow> False)"
  by code_simp

text \<open>
  Shared lists. When the caller hands one list to A, B and C, \<open>remove_value\<close> binds the
  assigned variable to a new list and removes the value from the shared one, and
  \<open>restore_value\<close> appends to whatever list a variable is bound to at that moment.
  With AC-3 disabled, the failed branch A = Red leaves A and B with lists of their own
  and C with the old list, now [Blue].
\<close>

lemma shared_list_failed_branch:
  "map (domain_of shared_list_model) [var_A, var_B, var_C]
     = [Some [Red, Blue], Some [Red, Blue], Some [Red, Blue]] \<and>
   (case try_branch (backtrack_solver 3 plain_solver) var_A Red [] shared_list_model of
      Some (Inr None, c) \<Rightarrow>
        map (domain_of c) [var_A, var_B, var_C]
          = [Some [Red, Blue], Some [Blue, Red], Some [Blue]]
    | _ \<Rightarrow> False)"
  by code_simp

end
